theory Spec2Isabelle
  imports Complex_Main "HOL-Library.Word" "HOL-Library.Multiset"
begin

unbundle bit_operations_syntax

section \<open>Data model of \<^verbatim>\<open>RayTracing/Common.h\<close>\<close>

text \<open>
  The Metal type \<^verbatim>\<open>uint\<close> is an unsigned 32-bit integer: multiplication and left shift
  wrap modulo \<open>2 ^ 32\<close>, right shift is logical. The vector type \<^verbatim>\<open>uint2\<close> is a pair
  whose \<^verbatim>\<open>.x\<close> is \<open>fst\<close> and whose \<^verbatim>\<open>.y\<close> is \<open>snd\<close>.
\<close>

type_synonym uint = "32 word"
type_synonym uint2 = "uint \<times> uint"

text \<open>
  The Metal type \<^verbatim>\<open>float\<close> is IEEE 754 binary32. A finite float is a sign (\<open>True\<close> for
  negative) and a magnitude, so that the two zeros \<open>Finite False 0\<close> and \<open>Finite True 0\<close>
  are different values; there are two infinities, and one \<open>NaN\<close> that stands for every NaN
  bit pattern (payloads are not modelled). The vectors \<^verbatim>\<open>packed_float2\<close>, \<^verbatim>\<open>float2\<close>,
  \<^verbatim>\<open>packed_float3\<close> and \<^verbatim>\<open>float3\<close> are tuples, \<^verbatim>\<open>.x\<close> first.
\<close>

datatype float = Finite bool rat | Infinity bool | NaN

type_synonym float2 = "float \<times> float"
type_synonym float3 = "float \<times> float \<times> float"

record CRNG =
  Seed :: uint2

record Vertex =
  position :: float3
  normal :: float3
  texcoord :: float2

section \<open>Single-precision arithmetic\<close>

text \<open>The rational number a sign and a magnitude denote.\<close>

definition with_sign :: "bool \<Rightarrow> rat \<Rightarrow> rat" where
  "with_sign s a = (if s then - a else a)"

text \<open>
  \<^verbatim>\<open>as_type<float>(u)\<close> reads the bits of \<open>u\<close> as a binary32: bit 31 is the sign, bits
  30 to 23 the biased exponent \<open>e\<close>, bits 22 to 0 the fraction \<open>m\<close>. Exponent 255 is an
  infinity or a NaN, exponent 0 a zero or a subnormal \<open>m * 2 ^ -149\<close>, and any other
  exponent the normal number \<open>(1 + m / 2 ^ 23) * 2 ^ (e - 127)\<close>.
\<close>

definition as_type_float :: "uint \<Rightarrow> float" where
  "as_type_float u =
    (let s = bit u 31;
         e = unat (take_bit 8 (drop_bit 23 u));
         m = unat (take_bit 23 u)
     in if e = 255 then (if m = 0 then Infinity s else NaN)
        else if e = 0 then Finite s (of_nat m * 2 powi (- 149))
        else Finite s (of_nat (2 ^ 23 + m) * 2 powi (int e - 150)))"

text \<open>
  Rounding of an exact magnitude to binary32, to nearest with ties to even (the default
  and only rounding mode of the language's \<open>+\<close>, \<open>-\<close> and \<open>*\<close>). \<open>binade k e a\<close> looks
  for the exponent of \<open>a\<close>: the first \<open>e'\<close> from \<open>e\<close> upwards with \<open>a < 2 ^ (e' + 1)\<close>,
  and \<open>e + k\<close> when there is none among the first \<open>k\<close>. From \<open>- 126\<close> and with 253 steps
  this is the exponent of \<open>a\<close> kept within \<open>- 126\<close> (subnormals share the spacing of the
  smallest normal binade) and 127. The magnitude is rounded to a multiple of the spacing
  \<open>2 ^ (e - 23)\<close> of that binade; a result that reaches \<open>2 ^ 128\<close> overflows to infinity.
\<close>

definition round_half_even :: "rat \<Rightarrow> int" where
  "round_half_even q =
    (let f = \<lfloor>q\<rfloor>; d = q - of_int f
     in if d < 1 / 2 then f else if 1 / 2 < d then f + 1 else if even f then f else f + 1)"

fun binade :: "nat \<Rightarrow> int \<Rightarrow> rat \<Rightarrow> int" where
  "binade 0 e a = e"
| "binade (Suc k) e a = (if a < 2 powi (e + 1) then e else binade k (e + 1) a)"

definition round_float :: "bool \<Rightarrow> rat \<Rightarrow> float" where
  "round_float s a =
    (let e = binade 253 (- 126) a;
         ulp = 2 powi (e - 23);
         y = of_int (round_half_even (a / ulp)) * ulp
     in if 2 powi 128 \<le> y then Infinity s else Finite s y)"

text \<open>
  Negation, addition, subtraction and multiplication. A sum that is exactly zero is the
  negative zero only when both operands are negative (zeros); \<open>x - y\<close> is \<open>x + (- y)\<close>;
  infinity minus infinity and zero times infinity are NaN.
\<close>

fun fneg :: "float \<Rightarrow> float" where
  "fneg (Finite s a) = Finite (\<not> s) a"
| "fneg (Infinity s) = Infinity (\<not> s)"
| "fneg NaN = NaN"

fun fadd :: "float \<Rightarrow> float \<Rightarrow> float" where
  "fadd (Finite s a) (Finite t b) =
    (let r = with_sign s a + with_sign t b
     in if r = 0 then Finite (s \<and> t) 0 else round_float (r < 0) \<bar>r\<bar>)"
| "fadd (Finite s a) (Infinity t) = Infinity t"
| "fadd (Infinity s) (Finite t b) = Infinity s"
| "fadd (Infinity s) (Infinity t) = (if s = t then Infinity s else NaN)"
| "fadd NaN y = NaN"
| "fadd x NaN = NaN"

definition fsub :: "float \<Rightarrow> float \<Rightarrow> float" where
  "fsub x y = fadd x (fneg y)"

fun fmul :: "float \<Rightarrow> float \<Rightarrow> float" where
  "fmul (Finite s a) (Finite t b) = round_float (s \<noteq> t) (a * b)"
| "fmul (Finite s a) (Infinity t) = (if a = 0 then NaN else Infinity (s \<noteq> t))"
| "fmul (Infinity s) (Finite t b) = (if b = 0 then NaN else Infinity (s \<noteq> t))"
| "fmul (Infinity s) (Infinity t) = Infinity (s \<noteq> t)"
| "fmul NaN y = NaN"
| "fmul x NaN = NaN"

text \<open>The comparison \<^verbatim>\<open>==\<close> on floats: the two zeros are equal, a NaN equals nothing.\<close>

fun feq :: "float \<Rightarrow> float \<Rightarrow> bool" where
  "feq (Finite s a) (Finite t b) = (with_sign s a = with_sign t b)"
| "feq (Infinity s) (Infinity t) = (s = t)"
| "feq x y = False"

text \<open>\<^verbatim>\<open>packed_float3 * float\<close>, \<^verbatim>\<open>packed_float3 + packed_float3\<close> and the same on
  \<^verbatim>\<open>packed_float2\<close> work component by component.\<close>

definition mul3 :: "float3 \<Rightarrow> float \<Rightarrow> float3" where
  "mul3 a s = (case a of (x, y, z) \<Rightarrow> (fmul x s, fmul y s, fmul z s))"

definition add3 :: "float3 \<Rightarrow> float3 \<Rightarrow> float3" where
  "add3 a b = (case a of (x, y, z) \<Rightarrow> case b of (x', y', z') \<Rightarrow> (fadd x x', fadd y y', fadd z z'))"

definition mul2 :: "float2 \<Rightarrow> float \<Rightarrow> float2" where
  "mul2 a s = (case a of (x, y) \<Rightarrow> (fmul x s, fmul y s))"

definition add2 :: "float2 \<Rightarrow> float2 \<Rightarrow> float2" where
  "add2 a b = (case a of (x, y) \<Rightarrow> case b of (x', y') \<Rightarrow> (fadd x x', fadd y y'))"

section \<open>The functions of the header\<close>

text \<open>
  The two overloads of \<^verbatim>\<open>Interpolate\<close>, named after the type of \<^verbatim>\<open>barycentric\<close>. In
  C++ \<open>a * u + b * v + c * w\<close> is \<open>(a * u + b * v) + c * w\<close>, and \<^verbatim>\<open>1.0f - u - v\<close> is
  \<open>(1.0f - u) - v\<close>.
\<close>

definition Interpolate_float3 :: "Vertex \<Rightarrow> Vertex \<Rightarrow> Vertex \<Rightarrow> float3 \<Rightarrow> Vertex" where
  "Interpolate_float3 v0 v1 v2 barycentric =
    (let u = fst barycentric;
         v = fst (snd barycentric);
         w = snd (snd barycentric)
     in \<lparr>position = add3 (add3 (mul3 (position v0) u) (mul3 (position v1) v)) (mul3 (position v2) w),
         normal = add3 (add3 (mul3 (normal v0) u) (mul3 (normal v1) v)) (mul3 (normal v2) w),
         texcoord = add2 (add2 (mul2 (texcoord v0) u) (mul2 (texcoord v1) v)) (mul2 (texcoord v2) w)\<rparr>)"

definition Interpolate_float2 :: "Vertex \<Rightarrow> Vertex \<Rightarrow> Vertex \<Rightarrow> float2 \<Rightarrow> Vertex" where
  "Interpolate_float2 v0 v1 v2 barycentric =
    (let u = fst barycentric;
         v = snd barycentric;
         w = fsub (fsub (Finite False 1.0) u) v
     in \<lparr>position = add3 (add3 (mul3 (position v0) u) (mul3 (position v1) v)) (mul3 (position v2) w),
         normal = add3 (add3 (mul3 (normal v0) u) (mul3 (normal v1) v)) (mul3 (normal v2) w),
         texcoord = add2 (add2 (mul2 (texcoord v0) u) (mul2 (texcoord v1) v)) (mul2 (texcoord v2) w)\<rparr>)"

text \<open>\<^verbatim>\<open>uint Hash(uint seed)\<close>: each assignment to \<^verbatim>\<open>seed\<close> is one binding.\<close>

definition Hash :: "uint \<Rightarrow> uint" where
  "Hash seed =
    (let seed1 = (seed XOR 61) XOR (drop_bit 16 seed);
         seed2 = seed1 * 9;
         seed3 = seed2 XOR (drop_bit 4 seed2);
         seed4 = seed3 * 0x27d4eb2d;
         seed5 = seed4 XOR (drop_bit 15 seed4)
     in seed5)"

text \<open>
  \<^verbatim>\<open>uint RngNext(thread CRNG& rng)\<close> mutates its argument; the model returns the
  produced word together with the updated state. The three assignments of the source are
  the three record updates, each reading the state left by the previous one; \<^verbatim>\<open>a ^ b ^ c\<close>
  is \<open>(a ^ b) ^ c\<close>.
\<close>

definition RngNext :: "CRNG \<Rightarrow> uint \<times> CRNG" where
  "RngNext rng =
    (let result = fst (Seed rng) * 0x9e3779bb;
         rng1 = rng\<lparr>Seed := (fst (Seed rng), snd (Seed rng) XOR fst (Seed rng))\<rparr>;
         rng2 = rng1\<lparr>Seed :=
                  (((((push_bit 26 (fst (Seed rng1))) OR (drop_bit (32 - 26) (fst (Seed rng1))))
                      XOR snd (Seed rng1))
                     XOR (push_bit 9 (snd (Seed rng1)))),
                   snd (Seed rng1))\<rparr>;
         rng3 = rng2\<lparr>Seed :=
                  (fst (Seed rng2),
                   (push_bit 13 (fst (Seed rng2))) OR (drop_bit (32 - 13) (fst (Seed rng2))))\<rparr>
     in (result, rng3))"

text \<open>
  \<^verbatim>\<open>float Rand(thread CRNG& rng)\<close>, returning the float and the updated state. The
  literal \<^verbatim>\<open>1.0\<close> is the float one.
\<close>

definition Rand :: "CRNG \<Rightarrow> float \<times> CRNG" where
  "Rand rng =
    (case RngNext rng of (r, rng') \<Rightarrow>
       let u = 0x3f800000 OR (drop_bit 9 r)
       in (fsub (as_type_float u) (Finite False 1.0), rng'))"

text \<open>
  \<^verbatim>\<open>CRNG InitCRND(uint2 id, uint frameIndex)\<close>. The parameter \<^verbatim>\<open>id\<close> is called
  \<open>ident\<close> here. The word returned by the call of \<^verbatim>\<open>RngNext\<close> is dropped.
\<close>

definition InitCRND :: "uint2 \<Rightarrow> uint \<Rightarrow> CRNG" where
  "InitCRND ident frameIndex =
    (let s0 = (push_bit 16 (fst ident)) OR (snd ident);
         s1 = frameIndex;
         rng = \<lparr>Seed = (Hash s0, Hash s1)\<rparr>
     in snd (RngNext rng))"

section \<open>Notions used in the statements\<close>

text \<open>
  Successive calls of \<^verbatim>\<open>RngNext\<close> on one state: the words produced by the first \<open>n\<close>
  calls, in order, and the state they leave.
\<close>

fun RngRun :: "nat \<Rightarrow> CRNG \<Rightarrow> uint list \<times> CRNG" where
  "RngRun 0 rng = ([], rng)"
| "RngRun (Suc n) rng =
    (case RngNext rng of (r, rng') \<Rightarrow>
       (case RngRun n rng' of (rs, rng'') \<Rightarrow> (r # rs, rng'')))"

text \<open>The rotation as the specification writes it.\<close>

definition rotateLeft32 :: "uint \<Rightarrow> nat \<Rightarrow> uint" where
  "rotateLeft32 x n = (push_bit n x) OR (drop_bit (32 - n) x)"

text \<open>
  The hash as the specification words it: xor-shift, times 9, xor-shift, times
  \<open>0x27d4eb2d\<close>, xor-shift, and nothing else. The specification gives no shift amounts;
  they are the parameters \<open>k1\<close>, \<open>k2\<close>, \<open>k3\<close>.
\<close>

definition xor_shift :: "nat \<Rightarrow> uint \<Rightarrow> uint" where
  "xor_shift k x = x XOR (drop_bit k x)"

definition hash_spec :: "nat \<Rightarrow> nat \<Rightarrow> nat \<Rightarrow> uint \<Rightarrow> uint" where
  "hash_spec k1 k2 k3 seed = xor_shift k3 (xor_shift k2 (xor_shift k1 seed * 9) * 0x27d4eb2d)"

text \<open>
  The inverse of the hash, stage by stage and in reverse order: an xor with a right-shifted
  copy is undone by repeating it with doubled shift amounts until the amount reaches 32,
  a multiplication by an odd constant by the multiplication with its inverse modulo
  \<open>2 ^ 32\<close>, the xor with 61 by itself.
\<close>

definition Hash_inv :: "uint \<Rightarrow> uint" where
  "Hash_inv h =
    (let seed4 = xor_shift 30 (xor_shift 15 h);
         seed3 = seed4 * 0xfb699ca5;
         seed2 = xor_shift 16 (xor_shift 8 (xor_shift 4 seed3));
         seed1 = seed2 * 0x38e38e39
     in xor_shift 16 (seed1 XOR 61))"

text \<open>
  A finite float: a sign and a non-negative magnitude that binary32 represents, that is,
  one that rounding leaves unchanged. Vertices all of whose components are finite, and
  equality of vertices by \<^verbatim>\<open>==\<close> on every component.
\<close>

definition finite_float :: "float \<Rightarrow> bool" where
  "finite_float x =
    (case x of Finite s a \<Rightarrow> 0 \<le> a \<and> round_float s a = Finite s a
     | Infinity s \<Rightarrow> False
     | NaN \<Rightarrow> False)"

definition finite_float3 :: "float3 \<Rightarrow> bool" where
  "finite_float3 a = (case a of (x, y, z) \<Rightarrow> finite_float x \<and> finite_float y \<and> finite_float z)"

definition finite_float2 :: "float2 \<Rightarrow> bool" where
  "finite_float2 a = (case a of (x, y) \<Rightarrow> finite_float x \<and> finite_float y)"

definition finite_Vertex :: "Vertex \<Rightarrow> bool" where
  "finite_Vertex v = (finite_float3 (position v) \<and> finite_float3 (normal v) \<and> finite_float2 (texcoord v))"

definition feq3 :: "float3 \<Rightarrow> float3 \<Rightarrow> bool" where
  "feq3 a b = (case a of (x, y, z) \<Rightarrow> case b of (x', y', z') \<Rightarrow> feq x x' \<and> feq y y' \<and> feq z z')"

definition feq2 :: "float2 \<Rightarrow> float2 \<Rightarrow> bool" where
  "feq2 a b = (case a of (x, y) \<Rightarrow> case b of (x', y') \<Rightarrow> feq x x' \<and> feq y y')"

definition Vertex_feq :: "Vertex \<Rightarrow> Vertex \<Rightarrow> bool" where
  "Vertex_feq v w = (feq3 (position v) (position w) \<and> feq3 (normal v) (normal w) \<and> feq2 (texcoord v) (texcoord w))"

subsection \<open>The generator on integers\<close>

text \<open>
  The state and the produced word read as unsigned integers, for evaluation. \<open>sorted_run d p\<close>
  makes \<open>2 ^ d\<close> steps from \<open>p\<close> and returns the produced words in increasing order,
  merging the two halves, together with the state reached.
\<close>

definition st :: "CRNG \<Rightarrow> int \<times> int" where
  "st rng = (uint (fst (Seed rng)), uint (snd (Seed rng)))"

definition step_int :: "int \<times> int \<Rightarrow> int \<times> int" where
  "step_int p =
    (let x = fst p;
         y1 = snd p XOR x;
         x2 = (take_bit 32 (push_bit 26 x) OR drop_bit 6 x) XOR y1 XOR take_bit 32 (push_bit 9 y1)
     in (x2, take_bit 32 (push_bit 13 x2) OR drop_bit 19 x2))"

definition out_int :: "int \<times> int \<Rightarrow> int" where
  "out_int p = take_bit 32 (fst p * 0x9e3779bb)"

fun merge_int :: "int list \<Rightarrow> int list \<Rightarrow> int list" where
  "merge_int [] ys = ys"
| "merge_int xs [] = xs"
| "merge_int (x # xs) (y # ys) = (if x \<le> y then x # merge_int xs (y # ys) else y # merge_int (x # xs) ys)"

fun glue :: "int list \<Rightarrow> int list \<times> (int \<times> int) \<Rightarrow> int list \<times> (int \<times> int)" where
  "glue l (r, p) = (merge_int l r, p)"

fun then_run :: "(int \<times> int \<Rightarrow> int list \<times> (int \<times> int)) \<Rightarrow> int list \<times> (int \<times> int) \<Rightarrow> int list \<times> (int \<times> int)" where
  "then_run f (l, p) = glue l (f p)"

fun sorted_run :: "nat \<Rightarrow> int \<times> int \<Rightarrow> int list \<times> (int \<times> int)" where
  "sorted_run 0 p = ([out_int p], step_int p)"
| "sorted_run (Suc d) p = then_run (sorted_run d) (sorted_run d p)"

fun increasing :: "int list \<Rightarrow> bool" where
  "increasing [] = True"
| "increasing [x] = True"
| "increasing (x # y # zs) = (x < y \<and> increasing (y # zs))"

section \<open>The generator step\<close>

text \<open>On 32-bit words and for amounts strictly between 0 and 32 the shift-and-or
  expression is the library's rotation.\<close>

lemma rotateLeft32_word_rotl:
  assumes "0 < n" "n < 32"
  shows "rotateLeft32 x n = word_rotl n x"
proof (rule bit_word_eqI)
  fix k assume "k < LENGTH(32)"
  then have k: "k < 32" by simp
  show "bit (rotateLeft32 x n) k = bit (word_rotl n x) k"
  proof (cases "n \<le> k")
    case True
    then have m: "(k + 32 - n) mod 32 = k - n"
      using k assms by (simp add: mod_if)
    have hi: "\<not> bit x (32 - n + k)"
      using True by (auto dest: bit_imp_le_length)
    show ?thesis using True k hi assms
      by (simp add: rotateLeft32_def bit_simps m)
  next
    case False
    then have m: "(k + 32 - n) mod 32 = 32 + k - n"
      using k assms by simp
    show ?thesis using False k assms
      by (simp add: rotateLeft32_def bit_simps m)
  qed
qed

text \<open>One call on a state written out, with the rotation amounts evaluated.\<close>

lemma RngNext_pair:
  "RngNext \<lparr>Seed = (a, b)\<rparr> =
    (a * 0x9e3779bb,
     \<lparr>Seed = ((push_bit 26 a OR drop_bit 6 a) XOR (b XOR a) XOR push_bit 9 (b XOR a),
              push_bit 13 ((push_bit 26 a OR drop_bit 6 a) XOR (b XOR a) XOR push_bit 9 (b XOR a))
              OR drop_bit 19 ((push_bit 26 a OR drop_bit 6 a) XOR (b XOR a) XOR push_bit 9 (b XOR a)))\<rparr>)"
proof -
  have n: "(32::nat) - 26 = 6" "(32::nat) - 13 = 19" by simp_all
  show ?thesis
    by (simp only: RngNext_def Let_def CRNG.simps fst_conv snd_conv xor.assoc n)
qed

text \<open>
  Claim C1. For every state, one call of \<^verbatim>\<open>RngNext\<close> returns \<open>seedX * 0x9e3779bb\<close>
  computed from the state before the call, and leaves the state
  \<open>seedY' = seedY XOR seedX\<close>,
  \<open>seedX'' = rotateLeft32 seedX 26 XOR seedY' XOR (seedY' << 9)\<close>,
  \<open>seedY'' = rotateLeft32 seedX'' 13\<close>, where \<open>rotateLeft32 x n = (x << n) | (x >> (32 - n))\<close>
  on 32-bit words; the product is the product of the naturals modulo \<open>2 ^ 32\<close>.
\<close>

theorem RngNext_step:
  "RngNext rng =
    (let seedX = fst (Seed rng); seedY = snd (Seed rng);
         seedY' = seedY XOR seedX;
         seedX'' = rotateLeft32 seedX 26 XOR seedY' XOR (push_bit 9 seedY');
         seedY'' = rotateLeft32 seedX'' 13
     in (seedX * 0x9e3779bb, \<lparr>Seed = (seedX'', seedY'')\<rparr>))
   \<and> unat (fst (RngNext rng)) = unat (fst (Seed rng)) * 0x9e3779bb mod 2 ^ 32"
proof -
  obtain a b where rng: "rng = \<lparr>Seed = (a, b)\<rparr>" by (cases rng) auto
  have n: "(32::nat) - 26 = 6" "(32::nat) - 13 = 19" by simp_all
  have "RngNext rng =
    (let seedX = fst (Seed rng); seedY = snd (Seed rng);
         seedY' = seedY XOR seedX;
         seedX'' = rotateLeft32 seedX 26 XOR seedY' XOR (push_bit 9 seedY');
         seedY'' = rotateLeft32 seedX'' 13
     in (seedX * 0x9e3779bb, \<lparr>Seed = (seedX'', seedY'')\<rparr>))"
    unfolding rng RngNext_pair
    by (simp only: rotateLeft32_def Let_def CRNG.simps fst_conv snd_conv n)
  moreover have "unat (fst (RngNext rng)) = unat (fst (Seed rng)) * 0x9e3779bb mod 2 ^ 32"
    unfolding rng RngNext_pair by (simp add: unat_word_ariths)
  ultimately show ?thesis by (rule conjI)
qed

section \<open>Construction of the generator\<close>

text \<open>
  Claim C2. For every \<^verbatim>\<open>id\<close> and \<^verbatim>\<open>frameIndex\<close>, \<^verbatim>\<open>InitCRND\<close> returns the state
  reached from \<open>seedX = Hash ((id.x << 16) | id.y)\<close>, \<open>seedY = Hash frameIndex\<close> by
  exactly one call of \<^verbatim>\<open>RngNext\<close>, whose produced word is dropped.
\<close>

theorem InitCRND_warm_up:
  "InitCRND ident frameIndex =
     snd (RngNext \<lparr>Seed = (Hash (push_bit 16 (fst ident) OR snd ident), Hash frameIndex)\<rparr>)
   \<and> (InitCRND ident frameIndex =
     snd (RngRun 1 \<lparr>Seed = (Hash (push_bit 16 (fst ident) OR snd ident), Hash frameIndex)\<rparr>))"
  by (simp add: InitCRND_def split: prod.split)

section \<open>The hash\<close>

lemma hash_spec_zero: "hash_spec k1 k2 k3 0 = 0"
  by (simp add: hash_spec_def xor_shift_def)

lemma Hash_zero: "Hash 0 = 3232319850"
  by (simp add: Hash_def)

lemma Hash_xor_shift:
  "Hash seed = xor_shift 15 (xor_shift 4 ((xor_shift 16 seed XOR 61) * 9) * 0x27d4eb2d)"
  by (simp add: Hash_def xor_shift_def Let_def ac_simps)

text \<open>
  Claim C6, as stated: the hash is the five stages xor-shift, times 9, xor-shift, times
  \<open>0x27d4eb2d\<close>, xor-shift, with no other operation. Such a sequence maps 0 to 0 whatever
  the shift amounts; the source maps 0 to 3232319850, because its first stage also xors
  the constant 61 into the word.
\<close>

theorem Hash_not_hash_spec: "Hash 0 \<noteq> hash_spec 16 4 15 0"
  by (simp add: Hash_zero hash_spec_zero)

text \<open>
  Claim C6, amended. For every 32-bit input the hash is the five stages of the source:
  xor of the word with its copy shifted right by 16 and with the constant 61, times 9,
  xor with the copy shifted right by 4, times \<open>0x27d4eb2d\<close>, xor with the copy shifted
  right by 15, all modulo \<open>2 ^ 32\<close>.
\<close>

theorem Hash_stages:
  "Hash seed = xor_shift 15 (xor_shift 4 ((xor_shift 16 seed XOR 61) * 9) * 0x27d4eb2d)"
  by (rule Hash_xor_shift)

text \<open>
  Claim C8. \<open>Hash 0\<close> differs from \<open>Hash 1\<close>, and the state built for id \<open>(0, 0)\<close> and
  frame 0 differs from the state built for id \<open>(0, 0)\<close> and frame 1.
\<close>

theorem Hash_InitCRND_differ:
  "Hash 0 \<noteq> Hash 1 \<and> InitCRND (0, 0) 0 \<noteq> InitCRND (0, 0) 1"
  by (simp add: Hash_def InitCRND_def RngNext_pair)

subsection \<open>Every stage of the hash is invertible\<close>

lemma xor_shift_twice: "xor_shift k (xor_shift k x) = xor_shift (2 * k) x"
  by (rule bit_word_eqI) (auto simp add: xor_shift_def bit_simps mult_2)

lemma xor_shift_ge_32: "32 \<le> k \<Longrightarrow> xor_shift k x = x"
  by (simp add: xor_shift_def drop_bit_eq_zero_iff_not_bit_last)

lemma xor_shift_16_inv: "xor_shift 16 (xor_shift 16 x) = x"
  by (simp add: xor_shift_twice xor_shift_ge_32)

lemma xor_shift_4_inv: "xor_shift 16 (xor_shift 8 (xor_shift 4 (xor_shift 4 x))) = x"
  by (simp add: xor_shift_twice xor_shift_ge_32)

lemma xor_shift_15_inv: "xor_shift 30 (xor_shift 15 (xor_shift 15 x)) = x"
  by (simp add: xor_shift_twice xor_shift_ge_32)

lemma xor_61_inv: "((y::uint) XOR 61) XOR 61 = y"
  by (simp add: xor.assoc)

lemma inverse_of_9: "(9::uint) * 0x38e38e39 = 1"
  by simp

lemma inverse_of_0x27d4eb2d: "(0x27d4eb2d::uint) * 0xfb699ca5 = 1"
  by simp

lemma times_9_inv: "(x::uint) * 9 * 0x38e38e39 = x"
  using inverse_of_9 by (simp only: mult.assoc mult_1_right)

lemma times_0x27d4eb2d_inv: "(x::uint) * 0x27d4eb2d * 0xfb699ca5 = x"
  using inverse_of_0x27d4eb2d by (simp only: mult.assoc mult_1_right)

lemma Hash_inv_Hash: "Hash_inv (Hash x) = x"
  unfolding Hash_xor_shift Hash_inv_def Let_def
  by (simp only: xor_shift_15_inv times_0x27d4eb2d_inv xor_shift_4_inv times_9_inv
      xor_61_inv xor_shift_16_inv)

lemma inj_Hash: "inj Hash"
  by (rule inj_on_inverseI [where g = Hash_inv]) (rule Hash_inv_Hash)

text \<open>
  Claim C10. The hash is a bijection on the 32-bit words: every stage is invertible
  (\<open>Hash_inv\<close> undoes them in reverse order), so distinct inputs have distinct hashes.
\<close>

theorem Hash_bijective:
  "bij Hash \<and> (\<forall>x y. x \<noteq> y \<longrightarrow> Hash x \<noteq> Hash y)"
proof -
  have "bij Hash"
    using inj_Hash by (simp add: finite_UNIV_inj_surj bij_def)
  with inj_Hash show ?thesis
    by (auto dest: injD)
qed

theorem Hash_bijective_witness: "(2::uint) \<noteq> 3 \<and> Hash 2 \<noteq> Hash 3"
proof -
  have d: "(2::uint) \<noteq> 3" by simp
  from Hash_bijective have "(2::uint) \<noteq> 3 \<longrightarrow> Hash 2 \<noteq> Hash 3" by blast
  with d show ?thesis by simp
qed

section \<open>The all-zero state\<close>

lemma RngNext_zero: "RngNext \<lparr>Seed = (0, 0)\<rparr> = (0, \<lparr>Seed = (0, 0)\<rparr>)"
  by (simp add: RngNext_pair)

text \<open>
  Claim C9. The all-zero state is a fixed point: a call of \<^verbatim>\<open>RngNext\<close> on it returns 0
  and leaves it unchanged, so any number of successive calls returns only zeros.
\<close>

theorem RngRun_zero_stuck:
  "RngNext \<lparr>Seed = (0, 0)\<rparr> = (0, \<lparr>Seed = (0, 0)\<rparr>)
   \<and> RngRun n \<lparr>Seed = (0, 0)\<rparr> = (replicate n 0, \<lparr>Seed = (0, 0)\<rparr>)"
  by (induction n) (simp_all add: RngNext_zero)

text \<open>
  The construction reaches that state: \<open>Hash 61 = 0\<close>, so for id \<open>(0, 61)\<close> and frame 61
  both seeds are hashed to 0 and the warm-up call leaves the all-zero state.
\<close>

lemma Hash_61: "Hash 61 = 0"
  by (simp add: Hash_def)

lemma InitCRND_zero_state: "InitCRND (0, 61) 61 = \<lparr>Seed = (0, 0)\<rparr>"
  by (simp add: InitCRND_def Hash_61 RngNext_zero)

section \<open>A thousand distinct outputs\<close>

text \<open>The integer functions compute the unsigned values of the word functions.\<close>

lemma uint_shl: "uint (push_bit k (a::uint)) = take_bit 32 (push_bit k (uint a))"
  by (simp only: unsigned_push_bit_eq) simp

lemma uint_shr: "uint (drop_bit k (a::uint)) = drop_bit k (uint a)"
proof -
  have "take_bit 32 (uint a) = uint a" by (rule bintr_uint) simp
  then show ?thesis by (simp only: unsigned_drop_bit_eq) simp
qed

lemma uint_golden: "uint ((a::uint) * 0x9e3779bb) = take_bit 32 (uint a * 0x9e3779bb)"
proof -
  have "uint (0x9e3779bb :: uint) = 0x9e3779bb" by simp
  then show ?thesis by (simp only: uint_word_arith_bintrs) simp
qed

lemma RngNext_int:
  "uint (fst (RngNext rng)) = out_int (st rng)" "st (snd (RngNext rng)) = step_int (st rng)"
proof -
  obtain a b where rng: "rng = \<lparr>Seed = (a, b)\<rparr>" by (cases rng) auto
  show "uint (fst (RngNext rng)) = out_int (st rng)"
    unfolding rng RngNext_pair by (simp only: fst_conv st_def out_int_def CRNG.simps uint_golden)
  show "st (snd (RngNext rng)) = step_int (st rng)"
    unfolding rng RngNext_pair
    by (simp only: fst_conv snd_conv st_def step_int_def Let_def CRNG.simps uint_shl uint_shr
        unsigned_xor_eq unsigned_or_eq)
qed

lemma RngRun_Suc:
  "RngRun (Suc n) rng =
    (fst (RngNext rng) # fst (RngRun n (snd (RngNext rng))), snd (RngRun n (snd (RngNext rng))))"
  by (simp split: prod.split)

lemma RngRun_add:
  "RngRun (m + n) rng = (fst (RngRun m rng) @ fst (RngRun n (snd (RngRun m rng))), snd (RngRun n (snd (RngRun m rng))))"
  by (induction m arbitrary: rng) (simp_all split: prod.split)

lemma length_RngRun: "length (fst (RngRun n rng)) = n"
  by (induction n arbitrary: rng) (simp_all add: RngRun_Suc del: RngRun.simps(2))

lemma mset_merge_int: "mset (merge_int xs ys) = mset xs + mset ys"
  by (induction xs ys rule: merge_int.induct) simp_all

lemma sorted_run_RngRun:
  "mset (fst (sorted_run d (st rng))) = mset (map uint (fst (RngRun (2 ^ d) rng)))
   \<and> snd (sorted_run d (st rng)) = st (snd (RngRun (2 ^ d) rng))"
proof (induction d arbitrary: rng)
  case 0
  show ?case by (simp add: RngNext_int RngRun_Suc del: RngRun.simps(2))
next
  case (Suc d)
  define rng1 where "rng1 = snd (RngRun (2 ^ d) rng)"
  have two: "(2::nat) ^ Suc d = 2 ^ d + 2 ^ d" by simp
  have a: "sorted_run (Suc d) (st rng) =
      (merge_int (fst (sorted_run d (st rng))) (fst (sorted_run d (st rng1))), snd (sorted_run d (st rng1)))"
    using Suc.IH [of rng] by (cases "sorted_run d (st rng)"; cases "sorted_run d (st rng1)") (simp add: rng1_def)
  show ?case
    unfolding a two RngRun_add using Suc.IH [of rng] Suc.IH [of rng1]
    by (simp add: mset_merge_int rng1_def)
qed

lemma increasing_sorted: "increasing xs \<Longrightarrow> sorted_wrt (<) xs"
  by (induction xs rule: increasing.induct) auto

lemma increasing_distinct: "increasing xs \<Longrightarrow> distinct xs"
  using increasing_sorted strict_sorted_iff by blast

lemma distinct_RngRun:
  assumes "increasing (fst (sorted_run d (st rng)))" and "n \<le> 2 ^ d"
  shows "distinct (fst (RngRun n rng))"
proof -
  have "distinct (fst (sorted_run d (st rng)))" using assms(1) by (rule increasing_distinct)
  then have "distinct (map uint (fst (RngRun (2 ^ d) rng)))"
    using sorted_run_RngRun [of d rng] by (metis mset_eq_imp_distinct_iff)
  then have d: "distinct (fst (RngRun (2 ^ d) rng))" by (simp add: distinct_map)
  obtain k where "2 ^ d = n + k" using assms(2) by (metis le_Suc_ex)
  with d show ?thesis by (simp add: RngRun_add)
qed

lemma InitCRND_origin: "InitCRND (0, 0) 0 = \<lparr>Seed = (2869077285, 1420080480)\<rparr>"
  by (simp add: Hash_def InitCRND_def RngNext_pair)

lemma st_InitCRND_origin: "st (InitCRND (0, 0) 0) = (2869077285, 1420080480)"
  by (simp add: InitCRND_origin st_def)

lemma increasing_origin: "increasing (fst (sorted_run 10 (2869077285, 1420080480)))"
  by code_simp

text \<open>
  Claim C7. There is a fixed initial state from which the first 1000 words returned by
  successive calls of \<^verbatim>\<open>RngNext\<close> are pairwise distinct: the state that \<^verbatim>\<open>InitCRND\<close>
  builds for id \<open>(0, 0)\<close> and frame 0.
\<close>

theorem RngRun_1000_distinct:
  "distinct (fst (RngRun 1000 (InitCRND (0, 0) 0))) \<and> length (fst (RngRun 1000 (InitCRND (0, 0) 0))) = 1000
   \<and> (\<exists>rng. distinct (fst (RngRun 1000 rng)))"
proof -
  have "increasing (fst (sorted_run 10 (st (InitCRND (0, 0) 0))))"
    unfolding st_InitCRND_origin by (rule increasing_origin)
  then have "distinct (fst (RngRun 1000 (InitCRND (0, 0) 0)))"
    by (rule distinct_RngRun) simp
  then show ?thesis by (auto simp add: length_RngRun)
qed

section \<open>Rounding leaves the binary32 numbers unchanged\<close>

lemma binade_bounds: "e \<le> binade k e a \<and> binade k e a \<le> e + int k"
proof (induction k arbitrary: e)
  case 0 then show ?case by simp
next
  case (Suc k)
  from Suc.IH [of "e + 1"] show ?case by auto
qed

lemma binade_lower: "e < binade k e a \<Longrightarrow> 2 powi (binade k e a) \<le> a"
proof (induction k arbitrary: e)
  case 0 then show ?case by simp
next
  case (Suc k)
  show ?case
  proof (cases "a < 2 powi (e + 1)")
    case True with Suc.prems show ?thesis by simp
  next
    case False
    show ?thesis
    proof (cases "e + 1 < binade k (e + 1) a")
      case True
      with Suc.IH [of "e + 1"] False show ?thesis by simp
    next
      case f: False
      with binade_bounds [of "e + 1" k a] have "binade k (e + 1) a = e + 1" by simp
      with False show ?thesis by simp
    qed
  qed
qed

lemma round_half_even_of_int: "round_half_even (of_int n) = n"
  by (simp add: round_half_even_def)

lemma round_float_exact:
  fixes n :: nat and x :: int
  assumes a_eq: "a = of_nat n * 2 powi x" and n: "n < 2 ^ 24"
    and x: "- 149 \<le> x" "x \<le> 104"
  shows "round_float s a = Finite s a"
proof -
  define E where "E = binade 253 (- 126) a"
  define ulp :: rat where "ulp = 2 powi (E - 23)"
  have ulp_pos: "0 < ulp" by (simp add: ulp_def)
  have "(of_nat n :: rat) < 2 ^ 24" using n by (metis of_nat_less_numeral_power_cancel_iff)
  then have "a < 2 ^ 24 * 2 powi x" unfolding a_eq by simp
  also have "\<dots> = 2 powi (24 + x)" by (simp add: power_int_add)
  finally have a_lt: "a < 2 powi (24 + x)" .
  have Ex: "E - 23 \<le> x"
  proof (cases "E = - 126")
    case True with x show ?thesis by simp
  next
    case False
    with binade_bounds [of "- 126" 253 a] have "- 126 < binade 253 (- 126) a"
      by (simp add: E_def)
    then have "2 powi E \<le> a" unfolding E_def by (rule binade_lower)
    with a_lt have less: "(2::rat) powi E < 2 powi (24 + x)" by simp
    have "E < 24 + x"
    proof (rule ccontr)
      assume "\<not> E < 24 + x"
      then have "(2::rat) powi (24 + x) \<le> 2 powi E"
        by (intro power_int_increasing) simp_all
      with less show False by simp
    qed
    then show ?thesis by simp
  qed
  define d where "d = nat (x - (E - 23))"
  have "x = int d + (E - 23)" using Ex by (simp add: d_def)
  then have "(2::rat) powi x = 2 powi (int d) * 2 powi (E - 23)"
    by (simp add: power_int_add)
  then have px: "(2::rat) powi x = 2 ^ d * ulp" by (simp add: ulp_def power_int_of_nat)
  have q: "a / ulp = of_int (int (n * 2 ^ d))"
    using ulp_pos by (simp add: a_eq px)
  have y: "of_int (round_half_even (a / ulp)) * ulp = a"
    unfolding q round_half_even_of_int using ulp_pos by (simp add: a_eq px)
  have "(2::rat) powi (24 + x) \<le> 2 powi 128" using x by (intro power_int_increasing) simp_all
  with a_lt have lt: "\<not> 2 powi 128 \<le> a" by simp
  show ?thesis
    unfolding round_float_def Let_def E_def [symmetric] ulp_def [symmetric] y
    using lt by simp
qed

lemma round_float_zero: "round_float s 0 = Finite s 0"
  by (rule round_float_exact [of 0 0 0]) simp_all

lemma round_float_one: "round_float s 1 = Finite s 1"
  by (rule round_float_exact [of 1 1 0]) simp_all

lemma as_type_float_exact:
  assumes "as_type_float u = Finite s a"
  shows "0 \<le> a \<and> round_float s a = Finite s a"
proof -
  define e where "e = unat (take_bit 8 (drop_bit 23 u))"
  define m where "m = unat (take_bit 23 u)"
  have m: "m < 2 ^ 23" unfolding m_def
    using take_bit_nat_less_exp [of 23 "unat u"] by (simp add: unsigned_take_bit_eq)
  have e: "e < 2 ^ 8" unfolding e_def
    using take_bit_nat_less_exp [of 8 "unat (drop_bit 23 u)"] by (simp add: unsigned_take_bit_eq)
  show ?thesis
  proof (cases "e = 0")
    case True
    with assms have a: "a = of_nat m * 2 powi (- 149)"
      by (auto simp add: as_type_float_def Let_def e_def [symmetric] m_def [symmetric] split: if_splits)
    moreover have "m < 2 ^ 24" using m by simp
    ultimately have "round_float s a = Finite s a" by (rule round_float_exact) simp_all
    with a show ?thesis by simp
  next
    case False
    with assms have e255: "e \<noteq> 255"
      by (auto simp add: as_type_float_def Let_def e_def [symmetric] m_def [symmetric] split: if_splits)
    from False assms have a: "a = of_nat (2 ^ 23 + m) * 2 powi (int e - 150)"
      by (auto simp add: as_type_float_def Let_def e_def [symmetric] m_def [symmetric] split: if_splits)
    then have "round_float s a = Finite s a"
    proof (rule round_float_exact)
      show "2 ^ 23 + m < 2 ^ 24" using m by simp
      show "- 149 \<le> int e - 150" using False by simp
      show "int e - 150 \<le> 104" using e e255 by simp
    qed
    moreover have "0 \<le> a" unfolding a by (intro mult_nonneg_nonneg) simp_all
    ultimately show ?thesis by simp
  qed
qed

section \<open>Uniform floats\<close>

text \<open>The pattern \<open>0x3f800000 OR (w >> 9)\<close> has sign 0, biased exponent 127 and the high 23
  bits of \<open>w\<close> as fraction.\<close>

lemma exponent_bits: "(0x3f800000 :: uint) = push_bit 23 (mask 7)"
  by (simp add: mask_eq_exp_minus_1)

lemma bit_exponent_bits: "bit (0x3f800000 :: uint) k \<longleftrightarrow> 23 \<le> k \<and> k < 30"
  unfolding exponent_bits by (auto simp add: bit_simps)

lemma bit_127: "bit (127 :: uint) k \<longleftrightarrow> k < 7"
proof -
  have e: "(127 :: uint) = mask 7" by (simp add: mask_eq_exp_minus_1)
  have "bit (mask 7 :: uint) k \<longleftrightarrow> k < 7" by (simp only: bit_mask_iff) auto
  then show ?thesis by (simp only: e)
qed

lemma unat_127: "unat (127 :: uint) = 127"
  by simp

lemma unit_fraction:
  fixes m :: nat
  assumes "m < 2 ^ 23"
  shows "0 \<le> rat_of_nat m / 2 ^ 23 \<and> rat_of_nat m / 2 ^ 23 < 1"
proof -
  have "rat_of_nat m < 2 ^ 23"
    using assms by (metis of_nat_less_numeral_power_cancel_iff)
  then show ?thesis by simp
qed

lemma mantissa_field: "take_bit 23 (0x3f800000 OR drop_bit 9 (w::uint)) = drop_bit 9 w"
  by (rule bit_word_eqI) (auto simp add: bit_simps bit_exponent_bits dest: bit_imp_le_length)

lemma exponent_field: "take_bit 8 (drop_bit 23 (0x3f800000 OR drop_bit 9 (w::uint))) = 127"
  by (rule bit_word_eqI) (auto simp add: bit_simps bit_exponent_bits bit_127 dest: bit_imp_le_length)

lemma sign_bit: "\<not> bit (0x3f800000 OR drop_bit 9 (w::uint)) 31"
  by (auto simp add: bit_simps bit_exponent_bits dest: bit_imp_le_length)

lemma as_type_float_mantissa:
  "as_type_float (0x3f800000 OR drop_bit 9 w) = Finite False (1 + of_nat (unat (drop_bit 9 w)) / 2 ^ 23)"
  unfolding as_type_float_def Let_def mantissa_field exponent_field unat_127
  using sign_bit [of w] by (simp add: power_int_minus field_simps)

lemma unat_drop_bit_9: "unat (drop_bit 9 (w::uint)) < 2 ^ 23"
proof -
  have "unat (drop_bit 9 w) = drop_bit 9 (unat w)"
    by (rule unat_drop_bit_eq)
  also have "\<dots> = unat w div 2 ^ 9"
    by (rule drop_bit_eq_div)
  finally have "unat (drop_bit 9 w) = unat w div 2 ^ 9" .
  moreover have "unat w < 2 ^ 32" using unsigned_less [of w] by simp
  ultimately show ?thesis by (simp add: less_mult_imp_div_less)
qed

lemma fsub_mantissa:
  "fsub (as_type_float (0x3f800000 OR drop_bit 9 w)) (Finite False 1) =
     Finite False (of_nat (unat (drop_bit 9 w)) / 2 ^ 23)"
proof -
  define m where "m = unat (drop_bit 9 w)"
  have m: "m < 2 ^ 24" using unat_drop_bit_9 [of w] by (simp add: m_def)
  have "rat_of_nat m / 2 ^ 23 = of_nat m * 2 powi (- 23)"
    by (simp add: power_int_minus field_simps)
  then have "round_float False (of_nat m / 2 ^ 23) = Finite False (of_nat m / 2 ^ 23)"
    using m by (rule round_float_exact) simp_all
  then show ?thesis
    by (simp add: as_type_float_mantissa fsub_def with_sign_def Let_def m_def [symmetric])
qed

text \<open>
  Claim C3. For every state, \<^verbatim>\<open>Rand\<close> takes the word \<open>w\<close> produced by \<^verbatim>\<open>RngNext\<close>, forms
  the pattern \<open>0x3f800000 OR (w >> 9)\<close>, reads it as a binary32 and subtracts one; the float
  returned is finite, not negative (not even the negative zero) and less than one. This
  holds for every 32-bit word \<open>w\<close>, and the float is \<open>(w >> 9) / 2 ^ 23\<close> exactly. Were
  the literal a double, the difference would be the same number, which both formats
  represent.
\<close>

theorem Rand_unit_interval:
  "Rand rng = (fsub (as_type_float (0x3f800000 OR drop_bit 9 (fst (RngNext rng)))) (Finite False 1), snd (RngNext rng))
   \<and> (\<exists>r. fst (Rand rng) = Finite False r \<and> 0 \<le> r \<and> r < 1)
   \<and> (\<forall>w. \<exists>r. fsub (as_type_float (0x3f800000 OR drop_bit 9 w)) (Finite False 1) = Finite False r
          \<and> r = of_nat (unat (drop_bit 9 w)) / 2 ^ 23 \<and> 0 \<le> r \<and> r < 1)"
proof -
  have *: "\<exists>r. fsub (as_type_float (0x3f800000 OR drop_bit 9 w)) (Finite False 1) = Finite False r \<and> 0 \<le> r \<and> r < 1" for w
  proof (intro exI conjI)
    show "fsub (as_type_float (0x3f800000 OR drop_bit 9 w)) (Finite False 1) = Finite False (of_nat (unat (drop_bit 9 w)) / 2 ^ 23)"
      by (rule fsub_mantissa)
    show "0 \<le> rat_of_nat (unat (drop_bit 9 w)) / 2 ^ 23"
      using unit_fraction [OF unat_drop_bit_9 [of w]] by (rule conjunct1)
    show "rat_of_nat (unat (drop_bit 9 w)) / 2 ^ 23 < 1"
      using unit_fraction [OF unat_drop_bit_9 [of w]] by (rule conjunct2)
  qed
  have **: "\<exists>r. fsub (as_type_float (0x3f800000 OR drop_bit 9 w)) (Finite False 1) = Finite False r
      \<and> r = of_nat (unat (drop_bit 9 w)) / 2 ^ 23 \<and> 0 \<le> r \<and> r < 1" for w
    using fsub_mantissa [of w] unit_fraction [OF unat_drop_bit_9 [of w]] by blast
  have "Rand rng = (fsub (as_type_float (0x3f800000 OR drop_bit 9 (fst (RngNext rng)))) (Finite False 1), snd (RngNext rng))"
    by (simp add: Rand_def split: prod.split)
  with * ** show ?thesis by simp
qed

section \<open>Interpolation\<close>

text \<open>
  Claim C4. For all vertices and all floats \<open>u\<close>, \<open>v\<close> (in particular those with
  \<open>u + v \<le> 1\<close>), the two-weight overload at \<open>(u, v)\<close> returns the same vertex, field for
  field, as the three-weight overload at \<open>(u, v, 1 - u - v)\<close>, the third weight being the
  float \<open>(1.0f - u) - v\<close>: the two overloads then apply the same operations to the same
  operands in the same order.
\<close>

theorem Interpolate_float2_float3:
  "Interpolate_float2 v0 v1 v2 (u, v) = Interpolate_float3 v0 v1 v2 (u, v, fsub (fsub (Finite False 1) u) v)"
  by (simp add: Interpolate_float2_def Interpolate_float3_def)

subsection \<open>Weights one and zero\<close>

lemma fmul_one: "finite_float x \<Longrightarrow> fmul x (Finite False 1) = x"
  by (cases x) (simp_all add: finite_float_def)

lemma fmul_zero: "finite_float x \<Longrightarrow> \<exists>s. fmul x (Finite False 0) = Finite s 0"
  by (cases x) (simp_all add: finite_float_def round_float_zero)

lemma fadd_zero_right: "finite_float x \<Longrightarrow> \<exists>s. fadd x (Finite t 0) = (if feq x (Finite False 0) then Finite s 0 else x)"
  by (cases x) (auto simp add: finite_float_def with_sign_def Let_def)

lemma fadd_zero_left: "finite_float x \<Longrightarrow> \<exists>s. fadd (Finite t 0) x = (if feq x (Finite False 0) then Finite s 0 else x)"
  by (cases x) (auto simp add: finite_float_def with_sign_def Let_def)

lemma feq_zero: "feq x (Finite False 0) \<Longrightarrow> feq (Finite s 0) x"
  by (cases x) (auto simp add: with_sign_def split: if_splits)

lemma feq_refl: "finite_float x \<Longrightarrow> feq x x"
  by (cases x) (auto simp add: finite_float_def)

lemma fadd_zeros: "fadd (Finite s 0) (Finite t 0) = Finite (s \<and> t) 0"
  by (simp add: with_sign_def)

lemma zero_absorb_right:
  assumes "finite_float x" and "w = x \<or> (\<exists>s. w = Finite s 0 \<and> feq x (Finite False 0))"
  shows "fadd w (Finite t 0) = x \<or> (\<exists>s. fadd w (Finite t 0) = Finite s 0 \<and> feq x (Finite False 0))"
proof (cases "feq x (Finite False 0)")
  case True
  from assms(2) have "\<exists>s. fadd w (Finite t 0) = Finite s 0"
  proof
    assume "w = x"
    with fadd_zero_right [OF assms(1), of t] True show ?thesis by simp
  next
    assume "\<exists>s. w = Finite s 0 \<and> feq x (Finite False 0)"
    then show ?thesis by (auto simp add: with_sign_def)
  qed
  with True show ?thesis by simp
next
  case False
  with assms(2) have "w = x" by simp
  with fadd_zero_right [OF assms(1), of t] False show ?thesis by simp
qed

lemma zero_absorb_left:
  assumes "finite_float x" and "w = x \<or> (\<exists>s. w = Finite s 0 \<and> feq x (Finite False 0))"
  shows "fadd (Finite t 0) w = x \<or> (\<exists>s. fadd (Finite t 0) w = Finite s 0 \<and> feq x (Finite False 0))"
proof (cases "feq x (Finite False 0)")
  case True
  from assms(2) have "\<exists>s. fadd (Finite t 0) w = Finite s 0"
  proof
    assume "w = x"
    with fadd_zero_left [OF assms(1), of t] True show ?thesis by simp
  next
    assume "\<exists>s. w = Finite s 0 \<and> feq x (Finite False 0)"
    then show ?thesis by (auto simp add: with_sign_def)
  qed
  with True show ?thesis by simp
next
  case False
  with assms(2) have "w = x" by simp
  with fadd_zero_left [OF assms(1), of t] False show ?thesis by simp
qed

lemma zero_absorb_feq:
  assumes "finite_float x" and "w = x \<or> (\<exists>s. w = Finite s 0 \<and> feq x (Finite False 0))"
  shows "feq w x"
  using assms by (auto simp add: feq_refl feq_zero)

lemma corner_weights:
  assumes "finite_float x" "finite_float y" "finite_float z"
  shows "feq (fadd (fadd (fmul x (Finite False 1)) (fmul y (Finite False 0))) (fmul z (Finite False 0))) x"
    and "feq (fadd (fadd (fmul x (Finite False 0)) (fmul y (Finite False 1))) (fmul z (Finite False 0))) y"
    and "feq (fadd (fadd (fmul x (Finite False 0)) (fmul y (Finite False 0))) (fmul z (Finite False 1))) z"
proof -
  obtain sx where sx: "fmul x (Finite False 0) = Finite sx 0" using fmul_zero [OF assms(1)] by blast
  obtain sy where sy: "fmul y (Finite False 0) = Finite sy 0" using fmul_zero [OF assms(2)] by blast
  obtain sz where sz: "fmul z (Finite False 0) = Finite sz 0" using fmul_zero [OF assms(3)] by blast
  show "feq (fadd (fadd (fmul x (Finite False 1)) (fmul y (Finite False 0))) (fmul z (Finite False 0))) x"
    unfolding fmul_one [OF assms(1)] sy sz
    by (intro zero_absorb_feq zero_absorb_right assms(1)) simp
  show "feq (fadd (fadd (fmul x (Finite False 0)) (fmul y (Finite False 1))) (fmul z (Finite False 0))) y"
    unfolding fmul_one [OF assms(2)] sx sz
    by (intro zero_absorb_feq zero_absorb_right zero_absorb_left assms(2)) simp
  show "feq (fadd (fadd (fmul x (Finite False 0)) (fmul y (Finite False 0))) (fmul z (Finite False 1))) z"
    unfolding fmul_one [OF assms(3)] sx sy fadd_zeros
    by (intro zero_absorb_feq zero_absorb_left assms(3)) simp
qed

lemma corner3:
  assumes "finite_float3 a" "finite_float3 b" "finite_float3 c"
  shows "feq3 (add3 (add3 (mul3 a (Finite False 1)) (mul3 b (Finite False 0))) (mul3 c (Finite False 0))) a"
    and "feq3 (add3 (add3 (mul3 a (Finite False 0)) (mul3 b (Finite False 1))) (mul3 c (Finite False 0))) b"
    and "feq3 (add3 (add3 (mul3 a (Finite False 0)) (mul3 b (Finite False 0))) (mul3 c (Finite False 1))) c"
  using assms
  by (auto simp add: finite_float3_def feq3_def add3_def mul3_def corner_weights split: prod.splits)

lemma corner2:
  assumes "finite_float2 a" "finite_float2 b" "finite_float2 c"
  shows "feq2 (add2 (add2 (mul2 a (Finite False 1)) (mul2 b (Finite False 0))) (mul2 c (Finite False 0))) a"
    and "feq2 (add2 (add2 (mul2 a (Finite False 0)) (mul2 b (Finite False 1))) (mul2 c (Finite False 0))) b"
    and "feq2 (add2 (add2 (mul2 a (Finite False 0)) (mul2 b (Finite False 0))) (mul2 c (Finite False 1))) c"
  using assms
  by (auto simp add: finite_float2_def feq2_def add2_def mul2_def corner_weights split: prod.splits)

lemma finite_float_zero: "finite_float (Finite False 0)"
  by (simp add: finite_float_def round_float_zero)

lemma finite_float_one: "finite_float (Finite False 1)"
  by (simp add: finite_float_def round_float_one)

text \<open>Every finite bit pattern is a finite float, and \<^verbatim>\<open>==\<close> on finite floats is identity
  but for the sign of a zero.\<close>

lemma finite_float_as_type_float: "as_type_float u = Finite s a \<Longrightarrow> finite_float (as_type_float u)"
  using as_type_float_exact [of u s a] by (simp add: finite_float_def)

lemma feq_finite_float:
  assumes "finite_float x" "finite_float y" "feq x y"
  shows "x = y \<or> (feq x (Finite False 0) \<and> feq y (Finite False 0))"
  using assms by (cases x; cases y) (auto simp add: finite_float_def with_sign_def split: if_splits)

text \<open>
  Claim C5, as stated: for every three vertices the weights \<open>(1, 0, 0)\<close> return \<open>v0\<close>. A
  component of \<open>v1\<close> that is an infinity, times the weight zero, is a NaN, and the NaN
  is what the sum returns: the result is not \<open>v0\<close>, by \<^verbatim>\<open>==\<close> or by identity.
\<close>

theorem Interpolate_float3_infinite_component:
  "\<not> Vertex_feq (Interpolate_float3
     \<lparr>position = (Finite False 0, Finite False 0, Finite False 0), normal = (Finite False 0, Finite False 0, Finite False 0), texcoord = (Finite False 0, Finite False 0)\<rparr>
     \<lparr>position = (Infinity False, Finite False 0, Finite False 0), normal = (Finite False 0, Finite False 0, Finite False 0), texcoord = (Finite False 0, Finite False 0)\<rparr>
     \<lparr>position = (Finite False 0, Finite False 0, Finite False 0), normal = (Finite False 0, Finite False 0, Finite False 0), texcoord = (Finite False 0, Finite False 0)\<rparr>
     (Finite False 1, Finite False 0, Finite False 0))
     \<lparr>position = (Finite False 0, Finite False 0, Finite False 0), normal = (Finite False 0, Finite False 0, Finite False 0), texcoord = (Finite False 0, Finite False 0)\<rparr>
  \<and> Interpolate_float3
     \<lparr>position = (Finite False 0, Finite False 0, Finite False 0), normal = (Finite False 0, Finite False 0, Finite False 0), texcoord = (Finite False 0, Finite False 0)\<rparr>
     \<lparr>position = (Infinity False, Finite False 0, Finite False 0), normal = (Finite False 0, Finite False 0, Finite False 0), texcoord = (Finite False 0, Finite False 0)\<rparr>
     \<lparr>position = (Finite False 0, Finite False 0, Finite False 0), normal = (Finite False 0, Finite False 0, Finite False 0), texcoord = (Finite False 0, Finite False 0)\<rparr>
     (Finite False 1, Finite False 0, Finite False 0) \<noteq>
     \<lparr>position = (Finite False 0, Finite False 0, Finite False 0), normal = (Finite False 0, Finite False 0, Finite False 0), texcoord = (Finite False 0, Finite False 0)\<rparr>"
  by (simp add: Interpolate_float3_def Vertex_feq_def feq3_def add3_def mul3_def round_float_zero Let_def)

text \<open>
  Claim C5, amended. For every three vertices whose position, normal and texcoord
  components are all finite floats, the three-weight overload returns a vertex equal
  (\<^verbatim>\<open>==\<close> on every component of position, normal and texcoord) to \<open>v0\<close> at the weights
  \<open>(1, 0, 0)\<close>, to \<open>v1\<close> at \<open>(0, 1, 0)\<close> and to \<open>v2\<close> at \<open>(0, 0, 1)\<close>.
\<close>

theorem Interpolate_float3_corners:
  assumes "finite_Vertex v0" "finite_Vertex v1" "finite_Vertex v2"
  shows "Vertex_feq (Interpolate_float3 v0 v1 v2 (Finite False 1, Finite False 0, Finite False 0)) v0
     \<and> Vertex_feq (Interpolate_float3 v0 v1 v2 (Finite False 0, Finite False 1, Finite False 0)) v1
     \<and> Vertex_feq (Interpolate_float3 v0 v1 v2 (Finite False 0, Finite False 0, Finite False 1)) v2"
  using assms by (simp add: Interpolate_float3_def Vertex_feq_def finite_Vertex_def corner3 corner2 Let_def)

theorem Interpolate_float3_corners_witness:
  "finite_Vertex \<lparr>position = (Finite False 1, Finite False 0, Finite False 0), normal = (Finite False 0, Finite False 0, Finite False 1), texcoord = (Finite False 0, Finite False 0)\<rparr>
  \<and> finite_Vertex \<lparr>position = (Finite False 0, Finite False 1, Finite False 0), normal = (Finite False 0, Finite False 0, Finite False 1), texcoord = (Finite False 1, Finite False 0)\<rparr>
  \<and> finite_Vertex \<lparr>position = (Finite False 0, Finite False 0, Finite False 1), normal = (Finite False 0, Finite False 0, Finite False 1), texcoord = (Finite False 0, Finite False 1)\<rparr>
  \<and> Vertex_feq (Interpolate_float3
     \<lparr>position = (Finite False 1, Finite False 0, Finite False 0), normal = (Finite False 0, Finite False 0, Finite False 1), texcoord = (Finite False 0, Finite False 0)\<rparr>
     \<lparr>position = (Finite False 0, Finite False 1, Finite False 0), normal = (Finite False 0, Finite False 0, Finite False 1), texcoord = (Finite False 1, Finite False 0)\<rparr>
     \<lparr>position = (Finite False 0, Finite False 0, Finite False 1), normal = (Finite False 0, Finite False 0, Finite False 1), texcoord = (Finite False 0, Finite False 1)\<rparr>
     (Finite False 1, Finite False 0, Finite False 0))
     \<lparr>position = (Finite False 1, Finite False 0, Finite False 0), normal = (Finite False 0, Finite False 0, Finite False 1), texcoord = (Finite False 0, Finite False 0)\<rparr>
  \<and> Vertex_feq (Interpolate_float3
     \<lparr>position = (Finite False 1, Finite False 0, Finite False 0), normal = (Finite False 0, Finite False 0, Finite False 1), texcoord = (Finite False 0, Finite False 0)\<rparr>
     \<lparr>position = (Finite False 0, Finite False 1, Finite False 0), normal = (Finite False 0, Finite False 0, Finite False 1), texcoord = (Finite False 1, Finite False 0)\<rparr>
     \<lparr>position = (Finite False 0, Finite False 0, Finite False 1), normal = (Finite False 0, Finite False 0, Finite False 1), texcoord = (Finite False 0, Finite False 1)\<rparr>
     (Finite False 0, Finite False 1, Finite False 0))
     \<lparr>position = (Finite False 0, Finite False 1, Finite False 0), normal = (Finite False 0, Finite False 0, Finite False 1), texcoord = (Finite False 1, Finite False 0)\<rparr>
  \<and> Vertex_feq (Interpolate_float3
     \<lparr>position = (Finite False 1, Finite False 0, Finite False 0), normal = (Finite False 0, Finite False 0, Finite False 1), texcoord = (Finite False 0, Finite False 0)\<rparr>
     \<lparr>position = (Finite False 0, Finite False 1, Finite False 0), normal = (Finite False 0, Finite False 0, Finite False 1), texcoord = (Finite False 1, Finite False 0)\<rparr>
     \<lparr>position = (Finite False 0, Finite False 0, Finite False 1), normal = (Finite False 0, Finite False 0, Finite False 1), texcoord = (Finite False 0, Finite False 1)\<rparr>
     (Finite False 0, Finite False 0, Finite False 1))
     \<lparr>position = (Finite False 0, Finite False 0, Finite False 1), normal = (Finite False 0, Finite False 0, Finite False 1), texcoord = (Finite False 0, Finite False 1)\<rparr>"
proof -
  let ?v0 = "\<lparr>position = (Finite False 1, Finite False 0, Finite False 0), normal = (Finite False 0, Finite False 0, Finite False 1), texcoord = (Finite False 0, Finite False 0)\<rparr>"
  let ?v1 = "\<lparr>position = (Finite False 0, Finite False 1, Finite False 0), normal = (Finite False 0, Finite False 0, Finite False 1), texcoord = (Finite False 1, Finite False 0)\<rparr>"
  let ?v2 = "\<lparr>position = (Finite False 0, Finite False 0, Finite False 1), normal = (Finite False 0, Finite False 0, Finite False 1), texcoord = (Finite False 0, Finite False 1)\<rparr>"
  have f0: "finite_Vertex ?v0" and f1: "finite_Vertex ?v1" and f2: "finite_Vertex ?v2"
    by (simp_all add: finite_Vertex_def finite_float3_def finite_float2_def finite_float_zero finite_float_one)
  from Interpolate_float3_corners [OF f0 f1 f2] f0 f1 f2 show ?thesis by simp
qed

end
